theory Spec2Isabelle
  imports Main
begin

section \<open>SelectImportSourceModal: the component's local state machine\<close>

text \<open>
  The component \<^verbatim>\<open>SelectImportSourceModal.vue\<close> holds four reactive fields, starts a
  one-second timer and a status request in \<^verbatim>\<open>created()\<close>, and offers two handlers,
  \<^verbatim>\<open>handleSubmit\<close> and \<^verbatim>\<open>handleCancel\<close>. The embedding below keeps the source's
  names. Mutation of \<^verbatim>\<open>this\<close> is explicit state passing; what the handlers send to
  the outside (\<^verbatim>\<open>$emit\<close>, the mapped store action and mutation) is returned as a
  list of effects.
\<close>

subsection \<open>Values and data\<close>

text \<open>
  Modelled from the spec: the module \<^verbatim>\<open>constants\<close> that exports \<^verbatim>\<open>ContentSources\<close>
  is not among the sources. The spec gives the selected source as an enumeration of
  three values; the members are named as the template and the script use them.
\<close>

datatype ContentSources = KOLIBRI_STUDIO | PEER_KOLIBRI_SERVER | LOCAL_DRIVE

text \<open>
  The JavaScript values that reach a test of the component: \<^verbatim>\<open>data.status\<close>, compared
  with \<^verbatim>\<open>===\<close> against a string literal, and \<^verbatim>\<open>this.$attrs.manageMode\<close>, tested by
  \<^verbatim>\<open>if\<close>.
\<close>

datatype jsval = JString string | JBoolean bool | JNull | JUndefined

text \<open>\<^verbatim>\<open>v === 'lit'\<close>: strict equality with a string holds for that string only.\<close>

fun strict_eq_string :: "jsval \<Rightarrow> string \<Rightarrow> bool" where
  "strict_eq_string (JString s) lit = (s = lit)"
| "strict_eq_string _ lit = False"

text \<open>\<^verbatim>\<open>if (v)\<close>: the empty string, \<^verbatim>\<open>false\<close>, \<^verbatim>\<open>null\<close> and \<^verbatim>\<open>undefined\<close> are falsy.\<close>

fun truthy :: "jsval \<Rightarrow> bool" where
  "truthy (JString s) = (s \<noteq> [])"
| "truthy (JBoolean b) = b"
| "truthy JNull = False"
| "truthy JUndefined = False"

text \<open>The object returned by \<^verbatim>\<open>data()\<close>, without the constant table \<^verbatim>\<open>ContentSources\<close>.\<close>

record data =
  source :: ContentSources
  initialDelay :: bool
  formIsDisabled :: bool
  kolibriStudioIsOffline :: bool

definition data_init :: data where
  "data_init =
     \<lparr> source = KOLIBRI_STUDIO,
       initialDelay = True,
       formIsDisabled = True,
       kolibriStudioIsOffline = False \<rparr>"

subsection \<open>The two callbacks registered by \<^verbatim>\<open>created()\<close>\<close>

text \<open>\<^verbatim>\<open>() => { this.initialDelay = false; }\<close>\<close>

definition timeout_callback :: "data \<Rightarrow> data" where
  "timeout_callback d = d\<lparr>initialDelay := False\<rparr>"

text \<open>
  \<^verbatim>\<open>({ data }) => { if (data.status === 'offline') { ... } this.formIsDisabled = false; }\<close>,
  given the value of \<^verbatim>\<open>data.status\<close>. The response is an object with a \<^verbatim>\<open>data\<close>
  object, as the resource delivers it; a missing \<^verbatim>\<open>status\<close> field reads as
  \<^verbatim>\<open>undefined\<close>.
\<close>

definition status_callback :: "jsval \<Rightarrow> data \<Rightarrow> data" where
  "status_callback status d =
     (let d1 = (if strict_eq_string status ''offline''
                then d\<lparr>source := PEER_KOLIBRI_SERVER, kolibriStudioIsOffline := True\<rparr>
                else d)
      in d1\<lparr>formIsDisabled := False\<rparr>)"

subsection \<open>The handlers\<close>

text \<open>The object literal \<^verbatim>\<open>{ source: this.source }\<close> passed with the submit event.\<close>

datatype payload = SourceObject ContentSources

text \<open>
  What a handler sends outwards: \<^verbatim>\<open>this.$emit(name, ...args)\<close>, the store action
  \<^verbatim>\<open>goForwardFromSelectImportSourceModal(source)\<close>, and the store mutation
  \<^verbatim>\<open>RESET_STATE\<close>, mapped to \<^verbatim>\<open>resetContentWizardState()\<close>.
\<close>

datatype effect =
    Emit string "payload list"
  | GoForwardFromSelectImportSourceModal ContentSources
  | ResetContentWizardState

definition handleSubmit :: "jsval \<Rightarrow> data \<Rightarrow> data \<times> effect list" where
  "handleSubmit manageMode d =
     (if \<not> formIsDisabled d then
        (if truthy manageMode
         then (d, [Emit ''submit'' [SourceObject (source d)]])
         else (d, [GoForwardFromSelectImportSourceModal (source d)]))
      else (d, []))"

definition handleCancel :: "jsval \<Rightarrow> data \<Rightarrow> data \<times> effect list" where
  "handleCancel manageMode d =
     (if truthy manageMode
      then (d, [Emit ''cancel'' []])
      else (d, [ResetContentWizardState]))"

subsection \<open>The template's bindings on \<^verbatim>\<open>SelectSourceModal\<close>\<close>

definition submitDisabled :: "data \<Rightarrow> bool" where
  "submitDisabled d = formIsDisabled d"

definition showLoadingMessage :: "data \<Rightarrow> bool" where
  "showLoadingMessage d = (formIsDisabled d \<and> \<not> initialDelay d)"

subsection \<open>A component instance and its events\<close>

text \<open>
  A promise is settled at most once; the source attaches a fulfilment callback with
  \<^verbatim>\<open>then\<close> and no rejection callback.
\<close>

datatype promise = Pending | Fulfilled | Rejected

text \<open>
  An instance: the reactive fields, the attribute \<^verbatim>\<open>$attrs.manageMode\<close>, the
  milliseconds elapsed since creation, the due time of the callback given to
  \<^verbatim>\<open>setTimeout\<close> while it has not run, the promise returned by
  \<^verbatim>\<open>getKolibriStudioStatus()\<close>, and everything sent outwards so far.
\<close>

record component =
  vm :: data
  manageMode :: jsval
  now :: nat
  timer :: "nat option"
  status_promise :: promise
  sent :: "effect list"

text \<open>
  The instance after \<^verbatim>\<open>data()\<close> and \<^verbatim>\<open>created()\<close> have run: the timer is due in
  1000 ms and the status request is pending. No field of \<^verbatim>\<open>this\<close> is assigned by
  \<^verbatim>\<open>created()\<close> itself.
\<close>

definition created :: "jsval \<Rightarrow> component" where
  "created mm =
     \<lparr> vm = data_init,
       manageMode = mm,
       now = 0,
       timer = Some 1000,
       status_promise = Pending,
       sent = [] \<rparr>"

text \<open>
  What can happen to an instance: time passes, the status request is answered with a
  value of \<^verbatim>\<open>data.status\<close> or fails, the user picks a radio button (\<^verbatim>\<open>v-model\<close>
  assigns \<^verbatim>\<open>source\<close>), or the modal shell raises \<^verbatim>\<open>submit\<close> or \<^verbatim>\<open>cancel\<close>.

  The callback given to \<^verbatim>\<open>setTimeout\<close> runs in the first \<^verbatim>\<open>Elapse\<close> that brings the
  clock to its due time, and then no more. The callback given to \<^verbatim>\<open>then\<close> runs when
  a pending promise is fulfilled; a settled promise ignores later answers and failures.
  The radio buttons' \<^verbatim>\<open>disabled\<close> attribute is enforced by the button component, not
  by this one, so a selection is accepted in every state here.
\<close>

datatype event =
    Elapse nat
  | Resolve jsval
  | Reject
  | Select ContentSources
  | Submit
  | Cancel

fun step :: "event \<Rightarrow> component \<Rightarrow> component" where
  "step (Elapse ms) s =
     (let t = now s + ms in
      case timer s of
        None \<Rightarrow> s\<lparr>now := t\<rparr>
      | Some due \<Rightarrow>
          if due \<le> t
          then s\<lparr>vm := timeout_callback (vm s), now := t, timer := None\<rparr>
          else s\<lparr>now := t\<rparr>)"
| "step (Resolve status) s =
     (case status_promise s of
        Pending \<Rightarrow> s\<lparr>vm := status_callback status (vm s), status_promise := Fulfilled\<rparr>
      | _ \<Rightarrow> s)"
| "step Reject s =
     (case status_promise s of
        Pending \<Rightarrow> s\<lparr>status_promise := Rejected\<rparr>
      | _ \<Rightarrow> s)"
| "step (Select c) s = s\<lparr>vm := (vm s)\<lparr>source := c\<rparr>\<rparr>"
| "step Submit s =
     (case handleSubmit (manageMode s) (vm s) of
        (d, fx) \<Rightarrow> s\<lparr>vm := d, sent := sent s @ fx\<rparr>)"
| "step Cancel s =
     (case handleCancel (manageMode s) (vm s) of
        (d, fx) \<Rightarrow> s\<lparr>vm := d, sent := sent s @ fx\<rparr>)"

fun run :: "event list \<Rightarrow> component \<Rightarrow> component" where
  "run [] s = s"
| "run (e # es) s = run es (step e s)"

text \<open>The instances passed through by a run, the first and the last included.\<close>

fun states :: "event list \<Rightarrow> component \<Rightarrow> component list" where
  "states [] s = [s]"
| "states (e # es) s = s # states es (step e s)"

text \<open>How often a flag goes from true to false, and from false to true, along a history.\<close>

fun falls :: "bool list \<Rightarrow> nat" where
  "falls (a # b # bs) = (if a \<and> \<not> b then 1 else 0) + falls (b # bs)"
| "falls _ = 0"

fun rises :: "bool list \<Rightarrow> nat" where
  "rises (a # b # bs) = (if \<not> a \<and> b then 1 else 0) + rises (b # bs)"
| "rises _ = 0"

text \<open>Whether the status request of a run is answered: its first settling event is an answer.\<close>

fun resolves :: "event list \<Rightarrow> bool" where
  "resolves [] = False"
| "resolves (Resolve status # es) = True"
| "resolves (Reject # es) = False"
| "resolves (e # es) = resolves es"

text \<open>The time a run takes.\<close>

fun elapsed :: "event list \<Rightarrow> nat" where
  "elapsed [] = 0"
| "elapsed (Elapse ms # es) = ms + elapsed es"
| "elapsed (e # es) = elapsed es"

text \<open>
  How the reactive fields relate to the timer, the clock and the promise in every
  instance that a run reaches.
\<close>

definition consistent :: "component \<Rightarrow> bool" where
  "consistent s =
     ((formIsDisabled (vm s) \<longleftrightarrow> status_promise s \<noteq> Fulfilled)
      \<and> (kolibriStudioIsOffline (vm s) \<longrightarrow> status_promise s = Fulfilled)
      \<and> (initialDelay (vm s) \<longleftrightarrow> timer s = Some 1000)
      \<and> (timer s = None \<or> timer s = Some 1000)
      \<and> (timer s = None \<longleftrightarrow> 1000 \<le> now s))"

section \<open>Properties\<close>

subsection \<open>Runs\<close>

lemma consistent_created: "consistent (created mm)"
  by (simp add: consistent_def created_def data_init_def)

lemma consistent_step: "consistent s \<Longrightarrow> consistent (step e s)"
proof (cases e)
  case (Elapse ms)
  assume "consistent s"
  then show ?thesis
    unfolding Elapse consistent_def
    by (auto simp: Let_def timeout_callback_def split: option.splits)
next
  case (Resolve status)
  assume "consistent s"
  then show ?thesis
    unfolding Resolve consistent_def
    by (cases "status_promise s") (auto simp: status_callback_def Let_def)
next
  case Reject
  assume "consistent s"
  then show ?thesis
    unfolding Reject consistent_def
    by (cases "status_promise s") auto
next
  case (Select c)
  assume "consistent s"
  then show ?thesis
    unfolding Select consistent_def by auto
next
  case Submit
  assume "consistent s"
  then show ?thesis
    unfolding Submit consistent_def by (auto simp: handleSubmit_def)
next
  case Cancel
  assume "consistent s"
  then show ?thesis
    unfolding Cancel consistent_def by (auto simp: handleCancel_def)
qed

lemma consistent_run: "consistent s \<Longrightarrow> consistent (run es s)"
  by (induction es arbitrary: s) (simp_all add: consistent_step)

lemma consistent_reachable: "consistent (run es (created mm))"
  by (rule consistent_run [OF consistent_created])

lemma now_step: "now (step e s) = now s + elapsed [e]"
  by (cases e)
     (auto simp: Let_def handleSubmit_def handleCancel_def
           split: option.splits promise.splits)

lemma elapsed_Cons: "elapsed (e # es) = elapsed [e] + elapsed es"
  by (cases e) simp_all

lemma now_run: "now (run es s) = now s + elapsed es"
proof (induction es arbitrary: s)
  case Nil
  show ?case by simp
next
  case (Cons e es)
  have "now (run (e # es) s) = now (step e s) + elapsed es"
    using Cons.IH by simp
  also have "\<dots> = now s + elapsed (e # es)"
    using now_step [of e s] elapsed_Cons [of e es] by simp
  finally show ?case .
qed

lemma now_reachable: "now (run es (created mm)) = elapsed es"
  using now_run [of es "created mm"] by (simp add: created_def)

lemma settled_step: "status_promise s \<noteq> Pending \<Longrightarrow> status_promise (step e s) = status_promise s"
  by (cases e)
     (auto simp: Let_def handleSubmit_def handleCancel_def
           split: option.splits promise.splits)

lemma settled_run: "status_promise s \<noteq> Pending \<Longrightarrow> status_promise (run es s) = status_promise s"
  by (induction es arbitrary: s) (simp_all add: settled_step)

lemma pending_run:
  "status_promise s = Pending \<Longrightarrow> (status_promise (run es s) = Fulfilled) = resolves es"
proof (induction es arbitrary: s)
  case Nil
  then show ?case by simp
next
  case (Cons e es)
  show ?case
  proof (cases e)
    case (Elapse ms)
    then have "status_promise (step e s) = Pending"
      using Cons.prems by (auto simp: Let_def split: option.splits)
    then show ?thesis using Cons.IH Elapse by simp
  next
    case (Resolve status)
    then have "status_promise (step e s) = Fulfilled"
      using Cons.prems by simp
    then show ?thesis using settled_run [of "step e s" es] Resolve by simp
  next
    case Reject
    then have "status_promise (step e s) = Rejected"
      using Cons.prems by simp
    then show ?thesis using settled_run [of "step e s" es] Reject by simp
  next
    case (Select c)
    then have "status_promise (step e s) = Pending"
      using Cons.prems by simp
    then show ?thesis using Cons.IH Select by simp
  next
    case Submit
    then have "status_promise (step e s) = Pending"
      using Cons.prems by (simp add: handleSubmit_def)
    then show ?thesis using Cons.IH Submit by simp
  next
    case Cancel
    then have "status_promise (step e s) = Pending"
      using Cons.prems by (simp add: handleCancel_def)
    then show ?thesis using Cons.IH Cancel by simp
  qed
qed

lemma fulfilled_reachable: "(status_promise (run es (created mm)) = Fulfilled) = resolves es"
  by (rule pending_run) (simp add: created_def)

lemma formIsDisabled_reachable: "formIsDisabled (vm (run es (created mm))) = (\<not> resolves es)"
  using consistent_reachable [of es mm] fulfilled_reachable [of es mm]
  by (simp add: consistent_def)

lemma initialDelay_reachable: "initialDelay (vm (run es (created mm))) = (elapsed es < 1000)"
  using consistent_reachable [of es mm] now_reachable [of es mm]
  by (auto simp: consistent_def)

lemma resolves_append_Reject: "resolves (es @ Reject # es') = resolves es"
proof (induction es)
  case Nil
  show ?case by simp
next
  case (Cons e es)
  then show ?case by (cases e) simp_all
qed

subsection \<open>Counting the changes of a flag\<close>

lemma falls_states:
  "falls (P s # map P (states es s')) = (if P s \<and> \<not> P s' then 1 else 0) + falls (map P (states es s'))"
  by (cases es) simp_all

lemma rises_states:
  "rises (P s # map P (states es s')) = (if \<not> P s \<and> P s' then 1 else 0) + rises (map P (states es s'))"
  by (cases es) simp_all

lemma stays_false_run:
  assumes stable: "\<And>e s. \<not> P s \<Longrightarrow> \<not> P (step e s)"
  shows "\<not> P s \<Longrightarrow> \<not> P (run es s)"
  by (induction es arbitrary: s) (simp_all add: stable)

lemma one_way_flag:
  assumes stable: "\<And>e s. \<not> P s \<Longrightarrow> \<not> P (step e s)"
  shows "falls (map P (states es s)) = (if P s \<and> \<not> P (run es s) then 1 else 0)
         \<and> rises (map P (states es s)) = 0"
proof (induction es arbitrary: s)
  case Nil
  show ?case by simp
next
  case (Cons e es)
  let ?s' = "step e s"
  have f: "falls (map P (states (e # es) s)) =
             (if P s \<and> \<not> P ?s' then 1 else 0) + falls (map P (states es ?s'))"
    using falls_states [of P s es ?s'] by simp
  have r: "rises (map P (states (e # es) s)) =
             (if \<not> P s \<and> P ?s' then 1 else 0) + rises (map P (states es ?s'))"
    using rises_states [of P s es ?s'] by simp
  have ih: "falls (map P (states es ?s')) = (if P ?s' \<and> \<not> P (run es ?s') then 1 else 0)"
    and ih': "rises (map P (states es ?s')) = 0"
    using Cons.IH [of ?s'] by simp_all
  show ?case
  proof (cases "P ?s'")
    case True
    then have "P s" using stable [of s e] by blast
    with True f r ih ih' show ?thesis by simp
  next
    case False
    then have "\<not> P (run es ?s')"
      using stays_false_run [of P ?s' es] stable by blast
    with False f r ih ih' show ?thesis by simp
  qed
qed

lemma formIsDisabled_stays_false:
  "\<not> formIsDisabled (vm s) \<Longrightarrow> \<not> formIsDisabled (vm (step e s))"
  by (cases e)
     (auto simp: Let_def timeout_callback_def status_callback_def handleSubmit_def
                 handleCancel_def
           split: option.splits promise.splits)

lemma initialDelay_stays_false:
  "\<not> initialDelay (vm s) \<Longrightarrow> \<not> initialDelay (vm (step e s))"
  by (cases e)
     (auto simp: Let_def timeout_callback_def status_callback_def handleSubmit_def
                 handleCancel_def
           split: option.splits promise.splits)

subsection \<open>Creation\<close>

text \<open>
  C6. Immediately after creation, before any callback has run, the selected source is
  Kolibri Studio, the initial delay is active, the form is disabled and Kolibri Studio
  is not marked offline.
\<close>

theorem initial_state:
  "source (vm (created mm)) = KOLIBRI_STUDIO
   \<and> initialDelay (vm (created mm)) = True
   \<and> formIsDisabled (vm (created mm)) = True
   \<and> kolibriStudioIsOffline (vm (created mm)) = False"
  by (simp add: created_def data_init_def)

subsection \<open>The status check\<close>

text \<open>
  C1. In every instance whose status request is still pending, whatever the user has
  selected before: when the request is answered with status \<^verbatim>\<open>'offline'\<close>, the source
  becomes the peer server and Kolibri Studio is marked offline; when it is answered
  with any other status, the source keeps the value it had and Kolibri Studio stays
  not marked offline; in both cases the form is enabled.
\<close>

theorem status_resolution:
  assumes "status_promise (run es (created mm)) = Pending"
  shows "(status = JString ''offline'' \<longrightarrow>
            source (vm (step (Resolve status) (run es (created mm)))) = PEER_KOLIBRI_SERVER
            \<and> kolibriStudioIsOffline (vm (step (Resolve status) (run es (created mm)))) = True)
         \<and> (status \<noteq> JString ''offline'' \<longrightarrow>
            source (vm (step (Resolve status) (run es (created mm))))
              = source (vm (run es (created mm)))
            \<and> kolibriStudioIsOffline (vm (step (Resolve status) (run es (created mm)))) = False)
         \<and> formIsDisabled (vm (step (Resolve status) (run es (created mm)))) = False"
proof -
  let ?s = "run es (created mm)"
  have online: "\<not> kolibriStudioIsOffline (vm ?s)"
    using consistent_reachable [of es mm] assms by (auto simp: consistent_def)
  have after: "vm (step (Resolve status) ?s) = status_callback status (vm ?s)"
    using assms by simp
  have eq: "strict_eq_string status ''offline'' = (status = JString ''offline'')"
    by (cases status) simp_all
  show ?thesis
    unfolding after using online by (simp add: status_callback_def eq)
qed

theorem status_resolution_witness:
  "status_promise (run [Select LOCAL_DRIVE, Elapse 300] (created (JBoolean False))) = Pending
   \<and> source (vm (step (Resolve (JString ''offline''))
        (run [Select LOCAL_DRIVE, Elapse 300] (created (JBoolean False))))) = PEER_KOLIBRI_SERVER
   \<and> kolibriStudioIsOffline (vm (step (Resolve (JString ''offline''))
        (run [Select LOCAL_DRIVE, Elapse 300] (created (JBoolean False))))) = True
   \<and> formIsDisabled (vm (step (Resolve (JString ''offline''))
        (run [Select LOCAL_DRIVE, Elapse 300] (created (JBoolean False))))) = False
   \<and> source (vm (step (Resolve (JString ''online''))
        (run [Select LOCAL_DRIVE, Elapse 300] (created (JBoolean False))))) = LOCAL_DRIVE
   \<and> kolibriStudioIsOffline (vm (step (Resolve (JString ''online''))
        (run [Select LOCAL_DRIVE, Elapse 300] (created (JBoolean False))))) = False
   \<and> formIsDisabled (vm (step (Resolve (JString ''online''))
        (run [Select LOCAL_DRIVE, Elapse 300] (created (JBoolean False))))) = False"
proof -
  have h: "status_promise (run [Select LOCAL_DRIVE, Elapse 300] (created (JBoolean False))) = Pending"
    by (simp add: created_def)
  have before: "source (vm (run [Select LOCAL_DRIVE, Elapse 300] (created (JBoolean False))))
                  = LOCAL_DRIVE"
    by (simp add: created_def)
  have differ: "JString ''online'' \<noteq> JString ''offline''"
    by simp
  show ?thesis
    using h before differ
      status_resolution [OF h, of "JString ''offline''"]
      status_resolution [OF h, of "JString ''online''"]
    by metis
qed

subsection \<open>Submitting and cancelling\<close>

text \<open>
  C2. When the form is not disabled, \<^verbatim>\<open>handleSubmit\<close> with \<^verbatim>\<open>manageMode\<close> set sends
  exactly one thing, the event \<^verbatim>\<open>submit\<close> with the object holding the current source;
  with \<^verbatim>\<open>manageMode\<close> not set it sends exactly one thing, the call of the
  wizard-advance action with the current source.
\<close>

theorem submit_when_enabled:
  assumes "\<not> formIsDisabled d"
  shows "(truthy mm \<longrightarrow>
            snd (handleSubmit mm d) = [Emit ''submit'' [SourceObject (source d)]])
         \<and> (\<not> truthy mm \<longrightarrow>
            snd (handleSubmit mm d) = [GoForwardFromSelectImportSourceModal (source d)])"
  using assms by (simp add: handleSubmit_def)

theorem submit_when_enabled_witness:
  "\<not> formIsDisabled (vm (run [Resolve (JString ''online'')] (created (JBoolean True))))
   \<and> truthy (JBoolean True)
   \<and> snd (handleSubmit (JBoolean True)
            (vm (run [Resolve (JString ''online'')] (created (JBoolean True)))))
       = [Emit ''submit'' [SourceObject KOLIBRI_STUDIO]]
   \<and> \<not> truthy JUndefined
   \<and> snd (handleSubmit JUndefined
            (vm (run [Resolve (JString ''online'')] (created (JBoolean True)))))
       = [GoForwardFromSelectImportSourceModal KOLIBRI_STUDIO]"
proof -
  have h: "\<not> formIsDisabled (vm (run [Resolve (JString ''online'')] (created (JBoolean True))))"
    by (simp add: created_def data_init_def status_callback_def)
  have src: "source (vm (run [Resolve (JString ''online'')] (created (JBoolean True))))
               = KOLIBRI_STUDIO"
    by (simp add: created_def data_init_def status_callback_def)
  have m: "truthy (JBoolean True)" "\<not> truthy JUndefined"
    by simp_all
  show ?thesis
    using h m
      submit_when_enabled [OF h, of "JBoolean True"]
      submit_when_enabled [OF h, of JUndefined]
    unfolding src by blast
qed

text \<open>
  C3. While the form is disabled, \<^verbatim>\<open>handleSubmit\<close> sends nothing: no event and no call
  of the wizard-advance action, whatever \<^verbatim>\<open>manageMode\<close> and the selected source are.
\<close>

theorem submit_when_disabled:
  assumes "formIsDisabled d"
  shows "snd (handleSubmit mm d) = []"
  using assms by (simp add: handleSubmit_def)

theorem submit_when_disabled_witness:
  "formIsDisabled (vm (created (JBoolean True)))
   \<and> snd (handleSubmit (JBoolean True) (vm (created (JBoolean True)))) = []"
proof -
  have h: "formIsDisabled (vm (created (JBoolean True)))"
    by (simp add: created_def data_init_def)
  show ?thesis
    using h submit_when_disabled [OF h, of "JBoolean True"] by simp
qed

text \<open>
  C4. In every state, disabled form or not, \<^verbatim>\<open>handleCancel\<close> sends exactly one thing:
  the event \<^verbatim>\<open>cancel\<close> without arguments when \<^verbatim>\<open>manageMode\<close> is set, the call of the
  reset mutation without arguments otherwise.
\<close>

theorem cancel_one_effect:
  "(truthy mm \<longrightarrow> snd (handleCancel mm d) = [Emit ''cancel'' []])
   \<and> (\<not> truthy mm \<longrightarrow> snd (handleCancel mm d) = [ResetContentWizardState])
   \<and> length (snd (handleCancel mm d)) = 1"
  by (simp add: handleCancel_def)

theorem cancel_one_effect_witness:
  "formIsDisabled (vm (created JUndefined))
   \<and> \<not> truthy JUndefined
   \<and> snd (handleCancel JUndefined (vm (created JUndefined))) = [ResetContentWizardState]
   \<and> truthy (JBoolean True)
   \<and> snd (handleCancel (JBoolean True) (vm (created JUndefined))) = [Emit ''cancel'' []]"
proof -
  have h: "formIsDisabled (vm (created JUndefined))"
    by (simp add: created_def data_init_def)
  have m: "\<not> truthy JUndefined" "truthy (JBoolean True)"
    by simp_all
  show ?thesis
    using h m
      cancel_one_effect [of JUndefined "vm (created JUndefined)"]
      cancel_one_effect [of "JBoolean True" "vm (created JUndefined)"]
    by blast
qed

text \<open>
  C10. Neither handler assigns a reactive field: after \<^verbatim>\<open>handleSubmit\<close> or
  \<^verbatim>\<open>handleCancel\<close> the source, the initial delay, the disabled flag and the offline
  flag are what they were, for every state and every \<^verbatim>\<open>manageMode\<close>; in an instance,
  the two events change nothing but the list of what has been sent.
\<close>

theorem handlers_keep_data:
  "fst (handleSubmit mm d) = d
   \<and> fst (handleCancel mm d) = d
   \<and> step Submit s = s\<lparr>sent := sent s @ snd (handleSubmit (manageMode s) (vm s))\<rparr>
   \<and> step Cancel s = s\<lparr>sent := sent s @ snd (handleCancel (manageMode s) (vm s))\<rparr>"
  by (simp add: handleSubmit_def handleCancel_def)

subsection \<open>The two one-way flags\<close>

text \<open>
  C5, as the code has it. Along every run of an instance the disabled flag goes from
  true to false at most once: exactly once when the status request is answered, never
  when it fails or stays unanswered. It never goes back from false to true, and the only
  event that changes it is the answer to a pending status request: time passing, a
  selection, submit and cancel leave it as it is.
\<close>

theorem form_enabled_by_resolution_only:
  "falls (map (\<lambda>s. formIsDisabled (vm s)) (states es (created mm)))
     = (if resolves es then 1 else 0)
   \<and> rises (map (\<lambda>s. formIsDisabled (vm s)) (states es (created mm))) = 0
   \<and> formIsDisabled (vm (run es (created mm))) = (\<not> resolves es)
   \<and> (formIsDisabled (vm (step e s)) \<noteq> formIsDisabled (vm s) \<longrightarrow>
        (\<exists>status. e = Resolve status) \<and> status_promise s = Pending)"
proof -
  let ?P = "\<lambda>s. formIsDisabled (vm s)"
  have flag: "falls (map ?P (states es (created mm)))
                = (if ?P (created mm) \<and> \<not> ?P (run es (created mm)) then 1 else 0)
              \<and> rises (map ?P (states es (created mm))) = 0"
    by (rule one_way_flag) (rule formIsDisabled_stays_false)
  have start: "?P (created mm)"
    by (simp add: created_def data_init_def)
  have change: "formIsDisabled (vm (step e s)) \<noteq> formIsDisabled (vm s) \<longrightarrow>
                  (\<exists>status. e = Resolve status) \<and> status_promise s = Pending"
    by (cases e)
       (auto simp: Let_def timeout_callback_def handleSubmit_def handleCancel_def
             split: option.splits promise.splits)
  show ?thesis
    using flag start change formIsDisabled_reachable [of es mm] by simp
qed

theorem form_enabled_by_resolution_only_witness:
  "resolves [Elapse 200, Resolve (JString ''online''), Submit]
   \<and> falls (map (\<lambda>s. formIsDisabled (vm s))
        (states [Elapse 200, Resolve (JString ''online''), Submit] (created (JBoolean True)))) = 1
   \<and> formIsDisabled (vm (step (Resolve (JString ''online'')) (created (JBoolean True))))
        \<noteq> formIsDisabled (vm (created (JBoolean True)))
   \<and> status_promise (created (JBoolean True)) = Pending"
proof -
  have r: "resolves [Elapse 200, Resolve (JString ''online''), Submit]"
    by simp
  have h: "formIsDisabled (vm (step (Resolve (JString ''online'')) (created (JBoolean True))))
             \<noteq> formIsDisabled (vm (created (JBoolean True)))"
    by (simp add: created_def data_init_def status_callback_def)
  note t = form_enabled_by_resolution_only
            [of "[Elapse 200, Resolve (JString ''online''), Submit]" "JBoolean True"
                "Resolve (JString ''online'')" "created (JBoolean True)"]
  have once: "falls (map (\<lambda>s. formIsDisabled (vm s))
        (states [Elapse 200, Resolve (JString ''online''), Submit] (created (JBoolean True)))) = 1"
    using t r by (simp only: if_True)
  have p: "status_promise (created (JBoolean True)) = Pending"
    using t h by blast
  show ?thesis
    using r once h p by blast
qed

text \<open>
  C5, as the claim words it, fails: when the status request is rejected the disabled
  flag makes no transition at all, however the run goes on.
\<close>

theorem form_not_enabled_after_rejection:
  "falls (map (\<lambda>s. formIsDisabled (vm s))
       (states [Reject, Elapse 1000, Submit] (created (JBoolean True)))) \<noteq> 1
   \<and> formIsDisabled (vm (run [Reject, Elapse 1000, Submit] (created (JBoolean True))))"
  by (simp add: created_def data_init_def timeout_callback_def handleSubmit_def)

text \<open>
  C8. Along every run the initial-delay flag is true strictly before 1000 ms have
  elapsed since creation and false from then on, whatever happens to the status
  request; so it goes from true to false exactly once, when the run passes the 1000 ms
  mark, and never back. The timer's callback leaves the other three fields alone, and
  the status callback leaves the initial-delay flag alone.
\<close>

theorem initial_delay_ends_at_1000:
  "initialDelay (vm (run es (created mm))) = (elapsed es < 1000)
   \<and> falls (map (\<lambda>s. initialDelay (vm s)) (states es (created mm)))
       = (if 1000 \<le> elapsed es then 1 else 0)
   \<and> rises (map (\<lambda>s. initialDelay (vm s)) (states es (created mm))) = 0
   \<and> source (timeout_callback d) = source d
   \<and> formIsDisabled (timeout_callback d) = formIsDisabled d
   \<and> kolibriStudioIsOffline (timeout_callback d) = kolibriStudioIsOffline d
   \<and> initialDelay (status_callback status d) = initialDelay d"
proof -
  let ?P = "\<lambda>s. initialDelay (vm s)"
  have flag: "falls (map ?P (states es (created mm)))
                = (if ?P (created mm) \<and> \<not> ?P (run es (created mm)) then 1 else 0)
              \<and> rises (map ?P (states es (created mm))) = 0"
    by (rule one_way_flag) (rule initialDelay_stays_false)
  have start: "?P (created mm)"
    by (simp add: created_def data_init_def)
  have callbacks: "source (timeout_callback d) = source d
     \<and> formIsDisabled (timeout_callback d) = formIsDisabled d
     \<and> kolibriStudioIsOffline (timeout_callback d) = kolibriStudioIsOffline d
     \<and> initialDelay (status_callback status d) = initialDelay d"
    by (simp add: timeout_callback_def status_callback_def)
  have "\<not> elapsed es < 1000 \<longleftrightarrow> 1000 \<le> elapsed es"
    by arith
  then show ?thesis
    using flag start callbacks initialDelay_reachable [of es mm] by simp
qed

theorem initial_delay_ends_at_1000_witness:
  "1000 \<le> elapsed [Elapse 400, Resolve (JString ''offline''), Elapse 600, Elapse 50]
   \<and> initialDelay (vm (run [Elapse 400, Resolve (JString ''offline''), Elapse 600, Elapse 50]
        (created JNull))) = False
   \<and> falls (map (\<lambda>s. initialDelay (vm s))
        (states [Elapse 400, Resolve (JString ''offline''), Elapse 600, Elapse 50]
           (created JNull))) = 1"
proof -
  have h: "1000 \<le> elapsed [Elapse 400, Resolve (JString ''offline''), Elapse 600, Elapse 50]"
    by simp
  then have h': "\<not> elapsed [Elapse 400, Resolve (JString ''offline''), Elapse 600, Elapse 50] < 1000"
    by simp
  note t = initial_delay_ends_at_1000
          [of "[Elapse 400, Resolve (JString ''offline''), Elapse 600, Elapse 50]" JNull]
  have off: "initialDelay (vm (run [Elapse 400, Resolve (JString ''offline''), Elapse 600, Elapse 50]
        (created JNull))) = False"
    using t h' by blast
  have once: "falls (map (\<lambda>s. initialDelay (vm s))
        (states [Elapse 400, Resolve (JString ''offline''), Elapse 600, Elapse 50]
           (created JNull))) = 1"
    using t h by (simp only: if_True)
  show ?thesis
    using h off once by blast
qed

subsection \<open>What the modal shell is told\<close>

text \<open>
  C7. In every instance that a run reaches, the submit control's disabled flag is the
  form's disabled flag, and the loading message is shown exactly when the form is
  disabled and the initial delay is over: it is not shown before 1000 ms have elapsed,
  it is shown from then on while the status request is unanswered, and it is not shown
  once the request has been answered.
\<close>

theorem shell_flags:
  "submitDisabled (vm (run es (created mm))) = formIsDisabled (vm (run es (created mm)))
   \<and> showLoadingMessage (vm (run es (created mm)))
       = (formIsDisabled (vm (run es (created mm))) \<and> \<not> initialDelay (vm (run es (created mm))))
   \<and> (elapsed es < 1000 \<longrightarrow> \<not> showLoadingMessage (vm (run es (created mm))))
   \<and> (1000 \<le> elapsed es \<and> \<not> resolves es \<longrightarrow> showLoadingMessage (vm (run es (created mm))))
   \<and> (resolves es \<longrightarrow> \<not> showLoadingMessage (vm (run es (created mm))))"
  using formIsDisabled_reachable [of es mm] initialDelay_reachable [of es mm]
  by (simp add: submitDisabled_def showLoadingMessage_def)

theorem shell_flags_witness:
  "elapsed [Elapse 999] < 1000
   \<and> \<not> showLoadingMessage (vm (run [Elapse 999] (created JNull)))
   \<and> 1000 \<le> elapsed [Select PEER_KOLIBRI_SERVER, Elapse 1000]
   \<and> \<not> resolves [Select PEER_KOLIBRI_SERVER, Elapse 1000]
   \<and> showLoadingMessage (vm (run [Select PEER_KOLIBRI_SERVER, Elapse 1000] (created JNull)))
   \<and> submitDisabled (vm (run [Select PEER_KOLIBRI_SERVER, Elapse 1000] (created JNull)))
   \<and> resolves [Elapse 1000, Resolve (JString ''online'')]
   \<and> \<not> showLoadingMessage (vm (run [Elapse 1000, Resolve (JString ''online'')] (created JNull)))"
proof -
  have h0: "elapsed [Elapse 999] < 1000"
    by simp
  have h1: "1000 \<le> elapsed [Select PEER_KOLIBRI_SERVER, Elapse 1000]"
    by simp
  have h2: "\<not> resolves [Select PEER_KOLIBRI_SERVER, Elapse 1000]"
    by simp
  have h3: "resolves [Elapse 1000, Resolve (JString ''online'')]"
    by simp
  show ?thesis
    using h0 h1 h2 h3
      shell_flags [of "[Elapse 999]" JNull]
      shell_flags [of "[Select PEER_KOLIBRI_SERVER, Elapse 1000]" JNull]
      shell_flags [of "[Elapse 1000, Resolve (JString ''online'')]" JNull]
    by blast
qed

subsection \<open>A status request that fails or is never answered\<close>

text \<open>
  C9. In a run in which the status request is not answered, because it is rejected or
  because nothing settles it, the form stays disabled: the rejection itself changes no
  field (there is no rejection callback), the form is disabled at the end of the run
  and of every continuation of it after a rejection, and submit does nothing there.
\<close>

theorem unanswered_status_keeps_form_disabled:
  assumes "\<not> resolves es"
  shows "formIsDisabled (vm (run es (created mm)))
         \<and> vm (step Reject (run es (created mm))) = vm (run es (created mm))
         \<and> step Submit (run es (created mm)) = run es (created mm)
         \<and> formIsDisabled (vm (run (es @ Reject # es') (created mm)))
         \<and> step Submit (run (es @ Reject # es') (created mm))
             = run (es @ Reject # es') (created mm)"
proof -
  have noop: "formIsDisabled (vm s) \<Longrightarrow> step Submit s = s" for s
    by (simp add: handleSubmit_def)
  have d1: "formIsDisabled (vm (run es (created mm)))"
    using assms by (simp add: formIsDisabled_reachable)
  have d2: "formIsDisabled (vm (run (es @ Reject # es') (created mm)))"
    using assms by (simp add: formIsDisabled_reachable resolves_append_Reject)
  have r: "vm (step Reject (run es (created mm))) = vm (run es (created mm))"
    by (cases "status_promise (run es (created mm))") simp_all
  show ?thesis
    using d1 d2 r noop [OF d1] noop [OF d2] by simp
qed

theorem unanswered_status_keeps_form_disabled_witness:
  "\<not> resolves [Elapse 1500, Select LOCAL_DRIVE]
   \<and> formIsDisabled (vm (run [Elapse 1500, Select LOCAL_DRIVE] (created (JBoolean True))))
   \<and> formIsDisabled (vm (run ([Elapse 1500, Select LOCAL_DRIVE]
        @ Reject # [Resolve (JString ''online''), Elapse 86400000, Submit])
        (created (JBoolean True))))
   \<and> sent (run ([Elapse 1500, Select LOCAL_DRIVE]
        @ Reject # [Resolve (JString ''online''), Elapse 86400000, Submit])
        (created (JBoolean True))) = []"
proof -
  have h: "\<not> resolves [Elapse 1500, Select LOCAL_DRIVE]"
    by simp
  have nothing_sent: "sent (run ([Elapse 1500, Select LOCAL_DRIVE]
        @ Reject # [Resolve (JString ''online''), Elapse 86400000, Submit])
        (created (JBoolean True))) = []"
    by (simp add: created_def data_init_def timeout_callback_def handleSubmit_def)
  note t = unanswered_status_keeps_form_disabled
        [OF h, of "JBoolean True" "[Resolve (JString ''online''), Elapse 86400000, Submit]"]
  show ?thesis
    using h nothing_sent t by blast
qed

end
